theory Spec2Isabelle
  imports Complex_Main "HOL-Library.Log_Nat"
begin

section \<open>JavaScript values used by the application\<close>

text \<open>
  A JavaScript number is a binary64 value: NaN, an infinity or a finite double. \<open>Fin r\<close>
  is the finite double whose value is the rational \<open>r\<close>; the two zeros are the one value
  \<open>Fin 0\<close> (they compare, test and add alike in the code below).
\<close>

datatype jsnum = NaN | Fin rat | PosInf | NegInf

text \<open>
  Rounding a rational to binary64, to nearest with ties to even. For \<open>a > 0\<close>,
  \<open>floor_log2 a\<close> is the \<open>e\<close> with \<open>2 powi e \<le> a < 2 powi (e + 1)\<close>. The spacing of the
  doubles around \<open>a\<close> is \<open>2 powi (e - 52)\<close>, with \<open>e\<close> not below \<open>- 1022\<close> (the subnormal
  range); a result of \<open>2 ^ 1024\<close> or more is an infinity.
\<close>

definition floor_log2 :: "rat \<Rightarrow> int" where
  "floor_log2 a = (if 1 \<le> a then bitlen \<lfloor>a\<rfloor> - 1 else - bitlen (\<lceil>1 / a\<rceil> - 1))"

definition round_half_even :: "rat \<Rightarrow> int" where
  "round_half_even x =
     (let f = \<lfloor>x\<rfloor>; d = x - of_int f
      in if d < 1 / 2 then f else if 1 / 2 < d then f + 1 else if even f then f else f + 1)"

definition round_magnitude :: "rat \<Rightarrow> rat" where
  "round_magnitude a =
     (let e = max (floor_log2 a) (- 1022);
          quantum = 2 powi (e - 52)
      in of_int (round_half_even (a / quantum)) * quantum)"

definition round_to_double :: "rat \<Rightarrow> jsnum" where
  "round_to_double r =
     (if r = 0 then Fin 0
      else
        let m = round_magnitude \<bar>r\<bar>
        in if 2 ^ 1024 \<le> m then (if 0 < r then PosInf else NegInf)
           else Fin (if 0 < r then m else - m))"

text \<open>The operator \<^verbatim>\<open>a + b\<close> on numbers: the exact sum, rounded.\<close>

fun js_add :: "jsnum \<Rightarrow> jsnum \<Rightarrow> jsnum" where
  "js_add NaN _ = NaN"
| "js_add _ NaN = NaN"
| "js_add (Fin a) (Fin b) = round_to_double (a + b)"
| "js_add PosInf NegInf = NaN"
| "js_add NegInf PosInf = NaN"
| "js_add PosInf _ = PosInf"
| "js_add _ PosInf = PosInf"
| "js_add NegInf _ = NegInf"
| "js_add _ NegInf = NegInf"

fun js_neg :: "jsnum \<Rightarrow> jsnum" where
  "js_neg NaN = NaN"
| "js_neg (Fin a) = Fin (- a)"
| "js_neg PosInf = NegInf"
| "js_neg NegInf = PosInf"

text \<open>\<^verbatim>\<open>n || 0\<close>: the falsy numbers are NaN and zero.\<close>

fun js_or_zero :: "jsnum \<Rightarrow> jsnum" where
  "js_or_zero NaN = Fin 0"
| "js_or_zero (Fin a) = (if a = 0 then Fin 0 else Fin a)"
| "js_or_zero PosInf = PosInf"
| "js_or_zero NegInf = NegInf"

text \<open>\<^verbatim>\<open>n <= 0\<close> and \<^verbatim>\<open>n > 0\<close>: every comparison with NaN is false.\<close>

fun js_le_zero :: "jsnum \<Rightarrow> bool" where
  "js_le_zero NaN = False"
| "js_le_zero (Fin a) = (a \<le> 0)"
| "js_le_zero PosInf = False"
| "js_le_zero NegInf = True"

fun js_gt_zero :: "jsnum \<Rightarrow> bool" where
  "js_gt_zero NaN = False"
| "js_gt_zero (Fin a) = (0 < a)"
| "js_gt_zero PosInf = True"
| "js_gt_zero NegInf = False"

text \<open>
  A value that can be thrown or returned in the \<^verbatim>\<open>error\<close> field of a response: an
  instance of \<^verbatim>\<open>Error\<close>, or some other object that carries a message. The handlers
  test \<^verbatim>\<open>err instanceof Error ? err.message : fallback\<close>; \<open>None\<close> is \<^verbatim>\<open>null\<close>.
\<close>

datatype js_error = ErrorInstance string | PlainObject string

fun error_message :: "js_error \<Rightarrow> string" where
  "error_message (ErrorInstance m) = m"
| "error_message (PlainObject m) = m"

fun message_or :: "string \<Rightarrow> js_error option \<Rightarrow> string" where
  "message_or fallback (Some (ErrorInstance m)) = m"
| "message_or fallback _ = fallback"

text \<open>\<^verbatim>\<open>arr[i]\<close>: reading outside the array gives \<^verbatim>\<open>undefined\<close>, here \<open>None\<close>.\<close>

definition js_index :: "'a list \<Rightarrow> int \<Rightarrow> 'a option" where
  "js_index arr i = (if 0 \<le> i \<and> i < int (length arr) then Some (arr ! nat i) else None)"

subsection \<open>The built-in parseFloat\<close>

text \<open>
  The handlers below take the built-in as a parameter, so what is proved of them holds for
  whatever the host's \<^verbatim>\<open>parseFloat\<close> returns. This is the built-in as ECMAScript defines
  it, for evaluating the handlers at concrete strings: it skips leading white space and
  reads the longest prefix that is a decimal literal, an optional sign, then
  \<^verbatim>\<open>Infinity\<close> or digits with an optional fraction and an optional exponent. Whatever
  follows is ignored; when there is no such prefix the result is NaN. The value of the
  literal is rounded to binary64 (for a literal of more than 20 significant digits
  ECMAScript also allows the rounding of a neighbouring decimal).

  A \<open>char\<close> is a UTF-16 code unit below 256. The white space and line terminator code
  units in that range are the seven below; the others (U+1680, U+2000 to U+200A, U+2028,
  U+2029, U+202F, U+205F, U+3000, U+FEFF) cannot occur in a \<open>string\<close>.
\<close>

definition is_ws :: "char \<Rightarrow> bool" where
  "is_ws c =
     (c \<in> {CHR 0x09, CHR 0x0A, CHR 0x0B, CHR 0x0C, CHR 0x0D, CHR 0x20, CHR 0xA0})"

definition is_digit :: "char \<Rightarrow> bool" where
  "is_digit c = (c \<in> set ''0123456789'')"

definition digit_val :: "char \<Rightarrow> int" where
  "digit_val c = of_char c - 48"

definition digits_val :: "string \<Rightarrow> int" where
  "digits_val ds = foldl (\<lambda>n c. 10 * n + digit_val c) 0 ds"

definition signed_integer :: "string \<Rightarrow> int option" where
  "signed_integer s =
     (case s of
        [] \<Rightarrow> None
      | c # r \<Rightarrow>
          if c = CHR ''+'' then
            (if takeWhile is_digit r = [] then None
             else Some (digits_val (takeWhile is_digit r)))
          else if c = CHR ''-'' then
            (if takeWhile is_digit r = [] then None
             else Some (- digits_val (takeWhile is_digit r)))
          else if takeWhile is_digit s = [] then None
          else Some (digits_val (takeWhile is_digit s)))"

text \<open>The exponent read at the head of the rest of the literal; 0 when there is none.\<close>

definition exponent_part :: "string \<Rightarrow> int" where
  "exponent_part s =
     (case s of
        [] \<Rightarrow> 0
      | c # r \<Rightarrow>
          if c = CHR ''e'' \<or> c = CHR ''E'' then
            (case signed_integer r of None \<Rightarrow> 0 | Some e \<Rightarrow> e)
          else 0)"

definition pow10 :: "int \<Rightarrow> rat" where
  "pow10 e = (if 0 \<le> e then 10 ^ nat e else 1 / 10 ^ nat (- e))"

definition str_unsigned_decimal :: "string \<Rightarrow> jsnum" where
  "str_unsigned_decimal s =
     (if take 8 s = ''Infinity'' then PosInf
      else
        let ip = takeWhile is_digit s; r1 = dropWhile is_digit s in
        (case r1 of
           [] \<Rightarrow> if ip = [] then NaN else round_to_double (of_int (digits_val ip))
         | c # r \<Rightarrow>
             if c = CHR ''.'' then
               (let fp = takeWhile is_digit r; r2 = dropWhile is_digit r in
                if ip = [] \<and> fp = [] then NaN
                else round_to_double
                       ((of_int (digits_val ip) + of_int (digits_val fp) / 10 ^ length fp)
                        * pow10 (exponent_part r2)))
             else if ip = [] then NaN
             else round_to_double (of_int (digits_val ip) * pow10 (exponent_part r1))))"

definition parseFloat :: "string \<Rightarrow> jsnum" where
  "parseFloat input =
     (case dropWhile is_ws input of
        [] \<Rightarrow> NaN
      | c # r \<Rightarrow>
          if c = CHR ''-'' then js_neg (str_unsigned_decimal r)
          else if c = CHR ''+'' then str_unsigned_decimal r
          else str_unsigned_decimal (c # r))"

section \<open>The remote data service, as the client sees it\<close>

text \<open>
  The row of one insert into \<^verbatim>\<open>investments\<close> (from \<^verbatim>\<open>handleSubmit\<close>): the fields
  \<^verbatim>\<open>user_id, amount, category, investment_date, notes\<close>.
\<close>

record insert_row =
  user_id :: string
  row_amount :: jsnum
  row_category :: string
  investment_date :: string
  row_notes :: string

text \<open>
  The calls the views make on the service, in the order they are issued:
  \<^verbatim>\<open>from("investments").insert([row])\<close>, \<^verbatim>\<open>from("investments").delete().eq("id", id)\<close>,
  \<^verbatim>\<open>from("investments").select("*").order(...)\<close> and \<^verbatim>\<open>auth.signOut()\<close>.
\<close>

datatype request =
    InsertInvestment insert_row
  | DeleteInvestmentEqId string
  | SelectInvestments
  | AuthSignOut



section \<open>Session Store (AuthProvider)\<close>

text \<open>Of the service's \<^verbatim>\<open>User\<close> and \<^verbatim>\<open>Session\<close> the code reads \<^verbatim>\<open>user.id\<close> and \<^verbatim>\<open>session.user\<close>.\<close>

record User =
  uid :: string
  email :: string

record Session =
  access_token :: string
  session_user :: User

text \<open>The context value: \<^verbatim>\<open>{ session, user, signOut }\<close>.\<close>

record AuthContext =
  session :: "Session option"
  user :: "User option"

datatype js_exception = SyntaxError

text \<open>
  The initial state of \<^verbatim>\<open>usePersistentState(key, initialValue)\<close>. Without a
  \<^verbatim>\<open>window\<close> (\<open>window_storage\<close> is \<open>None\<close>) it is the initial value. Otherwise the
  stored string, when it is there and not empty, goes through \<^verbatim>\<open>JSON.parse\<close>, which
  throws on a string that is not JSON (\<open>json_parse\<close> gives \<open>None\<close> then).
\<close>

definition usePersistentState_init ::
  "(string \<Rightarrow> 'a option) \<Rightarrow> (string \<rightharpoonup> string) option \<Rightarrow> string \<Rightarrow> 'a
     \<Rightarrow> js_exception + 'a" where
  "usePersistentState_init json_parse window_storage key initialValue =
     (case window_storage of
        None \<Rightarrow> Inr initialValue
      | Some localStorage \<Rightarrow>
          (case localStorage key of
             None \<Rightarrow> Inr initialValue
           | Some storedValue \<Rightarrow>
               if storedValue = [] then Inr initialValue
               else (case json_parse storedValue of
                       None \<Rightarrow> Inl SyntaxError
                     | Some v \<Rightarrow> Inr v)))"

text \<open>
  The first render of \<^verbatim>\<open>AuthProvider\<close>: \<^verbatim>\<open>session\<close> from
  \<^verbatim>\<open>usePersistentState("session", null)\<close>, \<^verbatim>\<open>user\<close> from \<^verbatim>\<open>useState(null)\<close>.
\<close>

definition AuthProvider_init ::
  "(string \<Rightarrow> Session option option) \<Rightarrow> (string \<rightharpoonup> string) option
     \<Rightarrow> js_exception + AuthContext" where
  "AuthProvider_init json_parse window_storage =
     (case usePersistentState_init json_parse window_storage ''session'' None of
        Inl e \<Rightarrow> Inl e
      | Inr s \<Rightarrow> Inr \<lparr>session = s, user = None\<rparr>)"

text \<open>
  The callback given to \<^verbatim>\<open>onAuthStateChange\<close> and the one given to
  \<^verbatim>\<open>getSession().then\<close> have the same body:
  \<^verbatim>\<open>setSession(session); setUser(session?.user ?? null)\<close>.
\<close>

definition set_session_and_user :: "Session option \<Rightarrow> AuthContext \<Rightarrow> AuthContext" where
  "set_session_and_user payload st =
     st\<lparr>session := payload,
        user := (case payload of None \<Rightarrow> None | Some s \<Rightarrow> Some (session_user s))\<rparr>"

definition onAuthStateChange :: "Session option \<Rightarrow> AuthContext \<Rightarrow> AuthContext" where
  "onAuthStateChange payload st = set_session_and_user payload st"

definition getSession_resolved :: "Session option \<Rightarrow> AuthContext \<Rightarrow> AuthContext" where
  "getSession_resolved payload st = set_session_and_user payload st"

text \<open>\<^verbatim>\<open>signOut: () => supabase.auth.signOut()\<close>: one call on the service, no local write.\<close>

definition signOut :: "AuthContext \<Rightarrow> AuthContext \<times> request list" where
  "signOut st = (st, [AuthSignOut])"

text \<open>What can happen to the store after its first render, and a run of such events.\<close>

datatype store_event =
    SessionFetched "Session option"
  | AuthStateChanged "Session option"
  | SignOutCalled

fun store_step :: "AuthContext \<Rightarrow> store_event \<Rightarrow> AuthContext" where
  "store_step st (SessionFetched payload) = getSession_resolved payload st"
| "store_step st (AuthStateChanged payload) = onAuthStateChange payload st"
| "store_step st SignOutCalled = fst (signOut st)"

definition store_run :: "AuthContext \<Rightarrow> store_event list \<Rightarrow> AuthContext" where
  "store_run st evs = foldl store_step st evs"

definition deliver_all :: "AuthContext \<Rightarrow> Session option list \<Rightarrow> AuthContext" where
  "deliver_all st payloads = foldl (\<lambda>s p. onAuthStateChange p s) st payloads"

section \<open>Route Guard (PrivateRoute)\<close>

datatype rendered = Children | NavigateTo string

definition PrivateRoute :: "AuthContext \<Rightarrow> rendered" where
  "PrivateRoute ctx = (if session ctx \<noteq> None then Children else NavigateTo ''/login'')"

section \<open>Investment List View (Dashboard)\<close>

text \<open>The interface \<^verbatim>\<open>Investment\<close>: \<^verbatim>\<open>id, amount, investment_date, category, notes\<close>.\<close>

record Investment =
  inv_id :: string
  inv_amount :: jsnum
  inv_investment_date :: string
  inv_category :: string
  inv_notes :: string

record Dashboard_state =
  investments :: "Investment list"
  dash_loading :: bool
  dash_error :: "string option"


text \<open>
  The totals row of the table, present when \<^verbatim>\<open>investments.length !== 0\<close>. Its second
  cell is the template
  \<^verbatim>\<open>`${investments[investments.length - 1]?.investment_date} - ${investments[0]?.investment_date}`\<close>
  and its third the \<^verbatim>\<open>reduce\<close> of the amounts from 0 (the number before
  \<^verbatim>\<open>toLocaleString\<close> formats it). The table is rendered once loading is over.
\<close>

record totals_row =
  date_range :: string
  total_amount :: jsnum

definition date_text :: "Investment option \<Rightarrow> string" where
  "date_text item = (case item of None \<Rightarrow> ''undefined'' | Some i \<Rightarrow> inv_investment_date i)"

definition Dashboard_totals :: "Investment list \<Rightarrow> totals_row option" where
  "Dashboard_totals invs =
     (if length invs \<noteq> 0 then
        Some \<lparr>date_range =
                 date_text (js_index invs (int (length invs) - 1)) @ '' - '' @
                 date_text (js_index invs 0),
              total_amount = foldl (\<lambda>sum item. js_add sum (inv_amount item)) (Fin 0) invs\<rparr>
      else None)"

text \<open>
  The sum of a list of numbers, as the specification words it: the numbers are added one
  after the other, in the order of the list, starting from 0, each addition rounding.
\<close>

fun add_from :: "jsnum \<Rightarrow> jsnum list \<Rightarrow> jsnum" where
  "add_from acc [] = acc"
| "add_from acc (x # xs) = add_from (js_add acc x) xs"

definition sum_in_order :: "jsnum list \<Rightarrow> jsnum" where
  "sum_in_order xs = add_from (Fin 0) xs"

section \<open>Investment Entry Form (NewInvestment)\<close>

text \<open>
  The interface \<^verbatim>\<open>CategoryAllocation\<close>: \<^verbatim>\<open>category\<close>, \<^verbatim>\<open>amount\<close> and the optional
  \<^verbatim>\<open>notes\<close> (\<open>alloc_notes\<close>, \<open>None\<close> when the property is missing).
\<close>

record CategoryAllocation =
  category :: string
  amount :: string
  alloc_notes :: "string option"

datatype allocation_field = CategoryField | AmountField | NotesField

record NewInvestment_state =
  allocations :: "CategoryAllocation list"
  investmentDate :: string
  loading :: bool
  form_error :: "string option"

text \<open>The initial value of \<^verbatim>\<open>allocations\<close>, and the draft the two handlers create.\<close>

definition initial_allocations :: "CategoryAllocation list" where
  "initial_allocations = [\<lparr>category = [], amount = [], alloc_notes = Some []\<rparr>]"

definition fresh_allocation :: CategoryAllocation where
  "fresh_allocation = \<lparr>category = [], amount = [], alloc_notes = None\<rparr>"

text \<open>
  In \<open>totalAmount\<close>, \<open>invalidAllocations\<close>, \<open>investment_of\<close> and \<open>handleSubmit\<close> the
  parameter \<open>parse\<close> is the built-in \<^verbatim>\<open>parseFloat\<close> that the code calls.
\<close>

definition totalAmount :: "(string \<Rightarrow> jsnum) \<Rightarrow> CategoryAllocation list \<Rightarrow> jsnum" where
  "totalAmount parse allocs =
     foldl (\<lambda>sum allocation. js_add sum (js_or_zero (parse (amount allocation))))
       (Fin 0) allocs"

definition handleAddAllocation :: "CategoryAllocation list \<Rightarrow> CategoryAllocation list" where
  "handleAddAllocation allocs = allocs @ [fresh_allocation]"

definition handleRemoveAllocation ::
  "nat \<Rightarrow> CategoryAllocation list \<Rightarrow> CategoryAllocation list" where
  "handleRemoveAllocation index allocs =
     (if length allocs = 1 then [fresh_allocation]
      else map snd (filter (\<lambda>(i, _). i \<noteq> index) (enumerate 0 allocs)))"

definition set_field :: "allocation_field \<Rightarrow> string \<Rightarrow> CategoryAllocation \<Rightarrow> CategoryAllocation" where
  "set_field field v a =
     (case field of
        CategoryField \<Rightarrow> a\<lparr>category := v\<rparr>
      | AmountField \<Rightarrow> a\<lparr>amount := v\<rparr>
      | NotesField \<Rightarrow> a\<lparr>alloc_notes := Some v\<rparr>)"

text \<open>
  \<^verbatim>\<open>handleAllocationChange(index, field, value)\<close> is bound to the rendered rows only, whose
  index is below the length. Outside that range the JavaScript array would grow, with
  holes and a draft that has one property; no list of drafts stands for that, so the
  result is \<open>None\<close> there.
\<close>

definition handleAllocationChange ::
  "nat \<Rightarrow> allocation_field \<Rightarrow> string \<Rightarrow> CategoryAllocation list \<Rightarrow> CategoryAllocation list option" where
  "handleAllocationChange index field v allocs =
     (if index < length allocs
      then Some (allocs[index := set_field field v (allocs ! index)])
      else None)"

text \<open>The edits of the allocation sequence while the form is open.\<close>

datatype form_event =
    AddAllocation
  | RemoveAllocation nat
  | AllocationChange nat allocation_field string

fun form_step :: "CategoryAllocation list \<Rightarrow> form_event \<Rightarrow> CategoryAllocation list option" where
  "form_step allocs AddAllocation = Some (handleAddAllocation allocs)"
| "form_step allocs (RemoveAllocation index) = Some (handleRemoveAllocation index allocs)"
| "form_step allocs (AllocationChange index field v) = handleAllocationChange index field v allocs"

fun form_run :: "CategoryAllocation list \<Rightarrow> form_event list \<Rightarrow> CategoryAllocation list option" where
  "form_run allocs [] = Some allocs"
| "form_run allocs (e # es) =
     (case form_step allocs e of None \<Rightarrow> None | Some allocs' \<Rightarrow> form_run allocs' es)"

text \<open>The validation of \<^verbatim>\<open>handleSubmit\<close>: \<^verbatim>\<open>allocations.some(...)\<close>.\<close>

definition invalidAllocations :: "(string \<Rightarrow> jsnum) \<Rightarrow> CategoryAllocation list \<Rightarrow> bool" where
  "invalidAllocations parse allocs =
     list_ex (\<lambda>alloc. category alloc = [] \<or> amount alloc = [] \<or>
                     js_le_zero (parse (amount alloc))) allocs"

text \<open>The object inserted for one allocation; \<^verbatim>\<open>allocation.notes || ""\<close> is the notes.\<close>

definition investment_of ::
  "(string \<Rightarrow> jsnum) \<Rightarrow> User \<Rightarrow> string \<Rightarrow> CategoryAllocation \<Rightarrow> insert_row" where
  "investment_of parse u date allocation =
     \<lparr>user_id = uid u,
      row_amount = parse (amount allocation),
      row_category = category allocation,
      investment_date = date,
      row_notes = (case alloc_notes allocation of None \<Rightarrow> [] | Some n \<Rightarrow> n)\<rparr>"

text \<open>
  What one call of \<^verbatim>\<open>handleSubmit\<close> leaves: the state of the form, the calls sent to the
  service in order, and the path given to \<^verbatim>\<open>navigate\<close>, if it was called.
\<close>

record submit_outcome =
  state_after :: NewInvestment_state
  issued :: "request list"
  navigated :: "string option"

text \<open>
  \<open>respond i row\<close> is the \<^verbatim>\<open>error\<close> of the response to the \<open>i\<close>-th insert (\<open>None\<close> when
  null). All inserts are sent by the \<^verbatim>\<open>map\<close> before \<^verbatim>\<open>Promise.all\<close> is awaited;
  \<^verbatim>\<open>results\<close> keeps the order of the allocations. Every insert resolves with a response;
  a promise that rejects is not part of this model.
\<close>

definition handleSubmit ::
  "(string \<Rightarrow> jsnum) \<Rightarrow> User option \<Rightarrow> (nat \<Rightarrow> insert_row \<Rightarrow> js_error option)
     \<Rightarrow> NewInvestment_state \<Rightarrow> submit_outcome" where
  "handleSubmit parse usr respond st =
     (case usr of
        None \<Rightarrow>
          \<lparr>state_after = st\<lparr>form_error := Some ''You must be logged in to add investments''\<rparr>,
           issued = [], navigated = None\<rparr>
      | Some u \<Rightarrow>
          if invalidAllocations parse (allocations st) then
            \<lparr>state_after =
               st\<lparr>form_error := Some ''All categories must be selected and have a valid amount''\<rparr>,
             issued = [], navigated = None\<rparr>
          else
            let rows = map (investment_of parse u (investmentDate st)) (allocations st);
                results = map (\<lambda>i. respond i (rows ! i)) [0..<length rows];
                insertErrors = filter (\<lambda>result. result \<noteq> None) results
            in (case insertErrors of
                  [] \<Rightarrow>
                    \<lparr>state_after = st\<lparr>loading := False, form_error := None\<rparr>,
                     issued = map InsertInvestment rows,
                     navigated = Some ''/dashboard''\<rparr>
                | first # _ \<Rightarrow>
                    \<lparr>state_after =
                       st\<lparr>loading := False,
                          form_error :=
                            Some (message_or ''Failed to add investments. Please try again.'' first)\<rparr>,
                     issued = map InsertInvestment rows,
                     navigated = None\<rparr>))"

section \<open>Concrete inputs\<close>

definition alice :: User where
  "alice = \<lparr>uid = ''u-1'', email = ''alice@example.org''\<rparr>"

definition alice_session :: Session where
  "alice_session = \<lparr>access_token = ''t-1'', session_user = alice\<rparr>"

definition logged_out :: AuthContext where
  "logged_out = \<lparr>session = None, user = None\<rparr>"

text \<open>A local storage that holds a snapshot of a session, and a parser that reads it back.\<close>

definition stored_snapshot :: string where
  "stored_snapshot = ''snapshot-of-alice-session''"

definition parse_snapshot :: "string \<Rightarrow> Session option option" where
  "parse_snapshot txt =
     (if txt = stored_snapshot then Some (Some alice_session)
      else if txt = ''null'' then Some None else None)"

definition storage_with_snapshot :: "(string \<rightharpoonup> string) option" where
  "storage_with_snapshot = Some [''session'' \<mapsto> stored_snapshot]"

definition draft :: "string \<Rightarrow> string \<Rightarrow> CategoryAllocation" where
  "draft c a = \<lparr>category = c, amount = a, alloc_notes = None\<rparr>"

definition empty_form :: NewInvestment_state where
  "empty_form =
     \<lparr>allocations = initial_allocations, investmentDate = ''2025-03-08'',
      loading = False, form_error = None\<rparr>"

definition two_drafts_form :: NewInvestment_state where
  "two_drafts_form =
     \<lparr>allocations = [draft ''Stocks'' ''10'',
                     \<lparr>category = ''Bonds'', amount = ''5.5'', alloc_notes = Some ''ladder''\<rparr>],
      investmentDate = ''2025-03-08'', loading = False, form_error = None\<rparr>"

definition zero_amount_form :: NewInvestment_state where
  "zero_amount_form =
     \<lparr>allocations = [draft ''Stocks'' ''10'', draft ''Bonds'' ''0''],
      investmentDate = ''2025-03-08'', loading = False, form_error = None\<rparr>"

text \<open>An amount that is above zero as a decimal and rounds to the double 0.\<close>

definition underflow_form :: NewInvestment_state where
  "underflow_form =
     \<lparr>allocations = [draft ''Stocks'' ''1e-400''],
      investmentDate = ''2025-03-08'', loading = False, form_error = None\<rparr>"

text \<open>The rows that \<open>two_drafts_form\<close> inserts for \<open>alice\<close>.\<close>

definition stocks_row :: insert_row where
  "stocks_row = \<lparr>user_id = ''u-1'', row_amount = Fin 10, row_category = ''Stocks'',
                 investment_date = ''2025-03-08'', row_notes = []\<rparr>"

definition bonds_row :: insert_row where
  "bonds_row = \<lparr>user_id = ''u-1'', row_amount = Fin (11 / 2), row_category = ''Bonds'',
                investment_date = ''2025-03-08'', row_notes = ''ladder''\<rparr>"

text \<open>
  Three services: one accepts every insert; one answers the second insert with an error
  object that is no instance of \<^verbatim>\<open>Error\<close>; one answers it with an \<^verbatim>\<open>Error\<close>.
\<close>

definition all_inserts_succeed :: "nat \<Rightarrow> insert_row \<Rightarrow> js_error option" where
  "all_inserts_succeed i r = None"

definition second_insert_fails :: "nat \<Rightarrow> insert_row \<Rightarrow> js_error option" where
  "second_insert_fails i r =
     (if i = 1 then Some (PlainObject ''duplicate key value'') else None)"

definition second_insert_throws :: "nat \<Rightarrow> insert_row \<Rightarrow> js_error option" where
  "second_insert_throws i r =
     (if i = 1 then Some (ErrorInstance ''Failed to fetch'') else None)"

text \<open>A list as the fetch loads it, newest first.\<close>

definition two_investments :: "Investment list" where
  "two_investments =
     [\<lparr>inv_id = ''a'', inv_amount = Fin 100, inv_investment_date = ''2025-03-02'',
       inv_category = ''Stocks'', inv_notes = []\<rparr>,
      \<lparr>inv_id = ''b'', inv_amount = Fin 250, inv_investment_date = ''2025-01-15'',
       inv_category = ''Bonds'', inv_notes = []\<rparr>]"




text \<open>The doubles nearest to 0.1, 0.2 and 0.30000000000000004.\<close>

definition double_0_1 :: rat where
  "double_0_1 = 3602879701896397 / 36028797018963968"

definition double_0_2 :: rat where
  "double_0_2 = 3602879701896397 / 18014398509481984"

definition double_0_30000000000000004 :: rat where
  "double_0_30000000000000004 = 1351079888211149 / 4503599627370496"

section \<open>Rounding to binary64\<close>

lemma power_int_nonneg_eq: "0 \<le> k \<Longrightarrow> (2::rat) powi k = 2 ^ nat k"
  by (simp add: power_int_def)

lemma floor_log2_lower: "0 < a \<Longrightarrow> 2 powi (floor_log2 a) \<le> a"
proof (cases "1 \<le> a")
  case True
  then have pos: "0 < \<lfloor>a\<rfloor>" by linarith
  from bitlen_bounds [OF pos] have "2 ^ nat (bitlen \<lfloor>a\<rfloor> - 1) \<le> \<lfloor>a\<rfloor>" by simp
  then have "(of_int (2 ^ nat (bitlen \<lfloor>a\<rfloor> - 1)) :: rat) \<le> of_int \<lfloor>a\<rfloor>"
    by (simp only: of_int_le_iff)
  also have "\<dots> \<le> a" by simp
  finally have "(2::rat) ^ nat (bitlen \<lfloor>a\<rfloor> - 1) \<le> a" by simp
  moreover from pos have "0 \<le> bitlen \<lfloor>a\<rfloor> - 1"
    by (simp add: bitlen_alt_def)
  ultimately show ?thesis
    using True by (simp add: floor_log2_def power_int_nonneg_eq)
next
  case False
  assume apos: "0 < a"
  with False have inv: "1 < 1 / a" by simp
  define m where "m = \<lceil>1 / a\<rceil>"
  from inv have m2: "2 \<le> m" unfolding m_def by linarith
  then have pos: "0 < m - 1" by simp
  define k where "k = bitlen (m - 1)"
  from bitlen_bounds [OF pos] have "m - 1 < 2 ^ nat k" by (simp add: k_def)
  then have "m \<le> 2 ^ nat k" by simp
  then have "(of_int m :: rat) \<le> of_int (2 ^ nat k)" by (simp only: of_int_le_iff)
  then have "(of_int m :: rat) \<le> 2 ^ nat k" by simp
  moreover have "1 / a \<le> of_int m" unfolding m_def by simp
  ultimately have "1 / a \<le> 2 ^ nat k" by linarith
  with apos have "1 \<le> a * 2 ^ nat k"
    by (simp add: field_simps)
  then have "1 / 2 ^ nat k \<le> a"
    by (simp add: field_simps)
  moreover have "0 \<le> k" by (simp add: k_def bitlen_nonneg)
  then have "(2::rat) powi (- k) = 1 / 2 ^ nat k"
    by (simp add: power_int_def field_simps)
  ultimately show ?thesis
    using False by (simp add: floor_log2_def k_def m_def)
qed

lemma floor_log2_upper: "0 < a \<Longrightarrow> a < 2 powi (floor_log2 a + 1)"
proof (cases "1 \<le> a")
  case True
  then have pos: "0 < \<lfloor>a\<rfloor>" by linarith
  from bitlen_bounds [OF pos] have "\<lfloor>a\<rfloor> < 2 ^ nat (bitlen \<lfloor>a\<rfloor>)" by simp
  then have "\<lfloor>a\<rfloor> + 1 \<le> 2 ^ nat (bitlen \<lfloor>a\<rfloor>)" by simp
  then have "(of_int (\<lfloor>a\<rfloor> + 1) :: rat) \<le> of_int (2 ^ nat (bitlen \<lfloor>a\<rfloor>))"
    by (simp only: of_int_le_iff)
  moreover have "a < of_int (\<lfloor>a\<rfloor> + 1)" by linarith
  ultimately have "a < 2 ^ nat (bitlen \<lfloor>a\<rfloor>)" by simp
  moreover have "0 \<le> bitlen \<lfloor>a\<rfloor>" by (rule bitlen_nonneg)
  ultimately show ?thesis
    using True by (simp add: floor_log2_def power_int_nonneg_eq)
next
  case False
  assume apos: "0 < a"
  with False have inv: "1 < 1 / a" by simp
  define m where "m = \<lceil>1 / a\<rceil>"
  from inv have m2: "2 \<le> m" unfolding m_def by linarith
  then have pos: "0 < m - 1" by simp
  define k where "k = bitlen (m - 1)"
  from pos have k1: "1 \<le> k" by (simp add: k_def bitlen_alt_def)
  from bitlen_bounds [OF pos] have "2 ^ nat (k - 1) \<le> m - 1" by (simp add: k_def)
  then have "(of_int (2 ^ nat (k - 1)) :: rat) \<le> of_int (m - 1)" by (simp only: of_int_le_iff)
  moreover have "of_int (m - 1) < 1 / a" unfolding m_def by linarith
  ultimately have "2 ^ nat (k - 1) < 1 / a" by simp
  with apos have "a * 2 ^ nat (k - 1) < 1"
    by (simp add: field_simps)
  then have "a < 1 / 2 ^ nat (k - 1)"
    by (simp add: field_simps)
  moreover from k1 have "(2::rat) powi (- k + 1) = 1 / 2 ^ nat (k - 1)"
    by (simp add: power_int_def field_simps)
  ultimately show ?thesis
    using False by (simp add: floor_log2_def k_def m_def)
qed

lemma floor_log2_eq:
  assumes "0 < a" and "2 powi e \<le> a" and "a < 2 powi (e + 1)"
  shows "floor_log2 a = e"
proof -
  from floor_log2_lower [OF assms(1)] assms(3)
  have "(2::rat) powi (floor_log2 a) < 2 powi (e + 1)" by simp
  then have "floor_log2 a < e + 1"
    by (metis power_int_increasing not_le one_le_numeral)
  moreover from floor_log2_upper [OF assms(1)] assms(2)
  have "(2::rat) powi e < 2 powi (floor_log2 a + 1)" by simp
  then have "e < floor_log2 a + 1"
    by (metis power_int_increasing not_le one_le_numeral)
  ultimately show ?thesis by simp
qed

lemma round_half_even_of_int: "round_half_even (of_int n) = n"
  by (simp add: round_half_even_def)

text \<open>A value with a significand below \<open>2 ^ 53\<close> and an exponent in range rounds to itself.\<close>

lemma round_magnitude_exact:
  assumes npos: "0 < n" and mant: "n < 2 ^ 53" and expo: "- 1074 \<le> k"
  shows "round_magnitude (of_int n * 2 powi k) = of_int n * 2 powi k"
proof -
  define a :: rat where "a = of_int n * 2 powi k"
  from npos have apos: "0 < a"
    by (simp add: a_def zero_less_power_int)
  define e where "e = max (floor_log2 a) (- 1022)"
  have "2 powi (floor_log2 a) \<le> a"
    using apos by (rule floor_log2_lower)
  also have "a < 2 ^ 53 * 2 powi k"
  proof -
    from mant have "(of_int n :: rat) < of_int (2 ^ 53)"
      by (simp only: of_int_less_iff)
    then have "(of_int n :: rat) < 2 ^ 53" by simp
    then show ?thesis
      unfolding a_def by (intro mult_strict_right_mono zero_less_power_int) simp_all
  qed
  also have "(2::rat) ^ 53 * 2 powi k = 2 powi (53 + k)"
    by (simp add: power_int_add)
  finally have "(2::rat) powi (floor_log2 a) < 2 powi (53 + k)" .
  then have "floor_log2 a < 53 + k"
    by (metis power_int_increasing not_le one_le_numeral)
  with expo have shift: "0 \<le> k - (e - 52)"
    by (simp add: e_def)
  define N where "N = n * 2 ^ nat (k - (e - 52))"
  have "2 powi k = (2::rat) powi (k - (e - 52)) * 2 powi (e - 52)"
    by (simp flip: power_int_add)
  also from shift have "(2::rat) powi (k - (e - 52)) = 2 ^ nat (k - (e - 52))"
    by (rule power_int_nonneg_eq)
  finally have a_N: "a = of_int N * 2 powi (e - 52)"
    by (simp add: a_def N_def)
  then have "a / 2 powi (e - 52) = of_int N" by simp
  then have "of_int (round_half_even (a / 2 powi (e - 52))) * 2 powi (e - 52) = a"
    by (simp add: round_half_even_of_int a_N)
  then have "round_magnitude a = a"
    by (simp add: round_magnitude_def Let_def e_def)
  then show ?thesis by (simp add: a_def)
qed

lemma round_to_double_exact:
  assumes mant: "\<bar>n\<bar> < 2 ^ 53" and expo: "- 1074 \<le> k"
    and range: "\<bar>of_int n * 2 powi k\<bar> < (2::rat) ^ 1024"
  shows "round_to_double (of_int n * 2 powi k) = Fin (of_int n * 2 powi k)"
proof (cases "n = 0")
  case True
  then show ?thesis by (simp add: round_to_double_def)
next
  case False
  define r :: rat where "r = of_int n * 2 powi k"
  have abs_r: "\<bar>r\<bar> = of_int \<bar>n\<bar> * 2 powi k"
    by (simp add: r_def abs_mult power_int_abs)
  from False have "0 < \<bar>n\<bar>" by simp
  from round_magnitude_exact [OF this mant expo]
  have mag: "round_magnitude \<bar>r\<bar> = \<bar>r\<bar>"
    by (simp only: abs_r)
  from False have rnz: "r \<noteq> 0" by (simp add: r_def)
  from range have small: "\<not> 2 ^ 1024 \<le> \<bar>r\<bar>" by (simp add: r_def)
  have "round_to_double r = Fin (if 0 < r then \<bar>r\<bar> else - \<bar>r\<bar>)"
    unfolding round_to_double_def Let_def mag using rnz small by simp
  also have "(if 0 < r then \<bar>r\<bar> else - \<bar>r\<bar>) = r" by simp
  finally show ?thesis by (simp add: r_def)
qed

lemma round_to_double_int:
  "\<bar>n\<bar> < 2 ^ 53 \<Longrightarrow> round_to_double (of_int n) = Fin (of_int n)"
proof -
  assume mant: "\<bar>n\<bar> < 2 ^ 53"
  then have "(of_int \<bar>n\<bar> :: rat) < of_int (2 ^ 53)" by (simp only: of_int_less_iff)
  then have "\<bar>of_int n * 2 powi 0\<bar> < (2::rat) ^ 1024" by simp
  from round_to_double_exact [OF mant _ this] show ?thesis by simp
qed

lemma round_to_double_halves:
  "\<bar>n\<bar> < 2 ^ 53 \<Longrightarrow> round_to_double (of_int n / 2) = Fin (of_int n / 2)"
proof -
  assume mant: "\<bar>n\<bar> < 2 ^ 53"
  then have "(of_int \<bar>n\<bar> :: rat) < of_int (2 ^ 53)" by (simp only: of_int_less_iff)
  then have "\<bar>of_int n * 2 powi (- 1)\<bar> < (2::rat) ^ 1024" by (simp add: power_int_minus)
  from round_to_double_exact [OF mant _ this] show ?thesis
    by (simp add: power_int_minus field_simps)
qed

text \<open>Rounding a positive value whose binary exponent is given.\<close>

lemma round_to_double_pos:
  assumes "0 < r" and "2 powi e \<le> r" and "r < 2 powi (e + 1)"
    and "q = 2 powi (max e (- 1022) - 52)"
    and "m = of_int (round_half_even (r / q)) * q"
  shows "round_to_double r = (if 2 ^ 1024 \<le> m then PosInf else Fin m)"
proof -
  from floor_log2_eq [OF assms(1-3)] assms(1) have "floor_log2 \<bar>r\<bar> = e" by simp
  then have "round_magnitude \<bar>r\<bar> = m"
    using assms(1) by (simp add: round_magnitude_def Let_def assms(4,5))
  then show ?thesis
    using assms(1) by (simp add: round_to_double_def Let_def)
qed

lemma floor_rat_numeral: "\<lfloor>(numeral a :: rat) / numeral b\<rfloor> = numeral a div numeral b"
  by (metis floor_divide_of_int_eq of_int_numeral)

lemma floor_rat_one_numeral: "\<lfloor>(1 :: rat) / numeral b\<rfloor> = 1 div numeral b"
  by (metis floor_divide_of_int_eq of_int_1 of_int_numeral)

lemmas rounding_eval =
  power_int_minus round_half_even_def Let_def floor_rat_numeral floor_rat_one_numeral

lemma round_10: "round_to_double 10 = Fin 10"
  using round_to_double_int [of 10] by simp

lemma round_100: "round_to_double 100 = Fin 100"
  using round_to_double_int [of 100] by simp

lemma round_350: "round_to_double 350 = Fin 350"
  using round_to_double_int [of 350] by simp

lemma round_5_5: "round_to_double (11 / 2) = Fin (11 / 2)"
  using round_to_double_halves [of 11] by simp

lemma round_15_5: "round_to_double (31 / 2) = Fin (31 / 2)"
  using round_to_double_halves [of 31] by simp

lemma round_0_1: "round_to_double (1 / 10) = Fin double_0_1"
  unfolding double_0_1_def
  by (rule trans [OF round_to_double_pos [where e = "- 4", OF _ _ _ refl refl]])
    (simp_all add: rounding_eval)

lemma round_0_2: "round_to_double (1 / 5) = Fin double_0_2"
  unfolding double_0_2_def
  by (rule trans [OF round_to_double_pos [where e = "- 3", OF _ _ _ refl refl]])
    (simp_all add: rounding_eval)

lemma round_double_0_1: "round_to_double double_0_1 = Fin double_0_1"
  using round_to_double_exact [of 3602879701896397 "- 55"]
  by (simp add: double_0_1_def power_int_minus)

lemma add_0_1_0_2: "round_to_double (double_0_1 + double_0_2) = Fin double_0_30000000000000004"
  unfolding double_0_1_def double_0_2_def double_0_30000000000000004_def
  by (rule trans [OF round_to_double_pos [where e = "- 2", OF _ _ _ refl refl]])
    (simp_all add: rounding_eval)

lemma round_1e_400: "round_to_double (1 / 10 ^ 400) = Fin 0"
  by (rule trans [OF round_to_double_pos [where e = "- 1329", OF _ _ _ refl refl]])
    (simp_all add: rounding_eval)

text \<open>Ties go to the even neighbour, on both sides.\<close>

lemma round_tie_down: "round_to_double (2 ^ 53 + 1) = Fin (2 ^ 53)"
  by (rule trans [OF round_to_double_pos [where e = 53, OF _ _ _ refl refl]])
    (simp_all add: rounding_eval)

lemma round_tie_up: "round_to_double (2 ^ 53 + 3) = Fin (2 ^ 53 + 4)"
  by (rule trans [OF round_to_double_pos [where e = 53, OF _ _ _ refl refl]])
    (simp_all add: rounding_eval)

text \<open>The smallest subnormal is \<open>1 / 2 ^ 1074\<close>; half of it rounds to 0.\<close>

lemma round_half_min_subnormal: "round_to_double (1 / 2 ^ 1075) = Fin 0"
  by (rule trans [OF round_to_double_pos [where e = "- 1075", OF _ _ _ refl refl]])
    (simp_all add: rounding_eval)

lemma round_subnormal_tie_up: "round_to_double (3 / 2 ^ 1075) = Fin (1 / 2 ^ 1073)"
  by (rule trans [OF round_to_double_pos [where e = "- 1074", OF _ _ _ refl refl]])
    (simp_all add: rounding_eval)

text \<open>The largest double is \<open>2 ^ 1024 - 2 ^ 971\<close>; half a step above it is an infinity.\<close>

lemma round_overflow: "round_to_double (2 ^ 1024 - 2 ^ 970) = PosInf"
  by (rule trans [OF round_to_double_pos [where e = 1023, OF _ _ _ refl refl]])
    (simp_all add: rounding_eval)

lemma round_below_overflow: "round_to_double (2 ^ 1024 - 2 ^ 970 - 1) = Fin (2 ^ 1024 - 2 ^ 971)"
  by (rule trans [OF round_to_double_pos [where e = 1023, OF _ _ _ refl refl]])
    (simp_all add: rounding_eval)

lemma round_negative: "round_to_double (- (2 ^ 53 + 3)) = Fin (- (2 ^ 53 + 4))"
proof -
  have "round_magnitude \<bar>- (2 ^ 53 + 3)\<bar> = 2 ^ 53 + 4"
    using round_tie_up by (simp add: round_to_double_def Let_def split: if_splits)
  then show ?thesis
    by (simp add: round_to_double_def Let_def)
qed

lemma js_add_rounds:
  "js_add (Fin (2 ^ 53)) (Fin 1) = Fin (2 ^ 53) \<and>
   js_add (Fin (2 ^ 1024 - 2 ^ 971)) (Fin (2 ^ 1024 - 2 ^ 971)) = PosInf"
proof -
  have "round_to_double (2 * (2 ^ 1024 - 2 ^ 971)) = PosInf"
    by (rule trans [OF round_to_double_pos [where e = 1024, OF _ _ _ refl refl]])
      (simp_all add: rounding_eval)
  then show ?thesis
    using round_tie_down by simp
qed

lemmas parseFloat_unfold =
  parseFloat_def str_unsigned_decimal_def is_ws_def is_digit_def digits_val_def
  digit_val_def exponent_part_def signed_integer_def pow10_def Let_def

lemma parseFloat_10: "parseFloat ''10'' = Fin 10"
  by (simp add: parseFloat_unfold round_10)

lemma parseFloat_abc: "parseFloat ''abc'' = NaN"
  by (simp add: parseFloat_unfold)

lemma parseFloat_5_5: "parseFloat ''5.5'' = Fin (11 / 2)"
  by (simp add: parseFloat_unfold round_5_5)

lemma parseFloat_0: "parseFloat ''0'' = Fin 0"
  by (simp add: parseFloat_unfold round_to_double_def)

lemma parseFloat_0_1: "parseFloat ''0.1'' = Fin double_0_1"
  by (simp add: parseFloat_unfold round_0_1)

lemma parseFloat_0_2: "parseFloat ''0.2'' = Fin double_0_2"
  by (simp add: parseFloat_unfold round_0_2)

lemma parseFloat_1e_400: "parseFloat ''1e-400'' = Fin 0"
proof -
  have "parseFloat ''1e-400'' = round_to_double (1 / 10 ^ 400)"
    by (simp add: parseFloat_unfold)
  then show ?thesis by (simp only: round_1e_400)
qed

lemma parseFloat_empty: "parseFloat [] = NaN"
  by (simp add: parseFloat_def)

text \<open>White space, signs, fractions, exponents, what follows the literal, infinities.\<close>

lemma parseFloat_examples:
  "parseFloat (CHR 0xA0 # ''-5'') = Fin (- 5)"
  "parseFloat ''  -5.5xyz'' = Fin (- (11 / 2))"
  "parseFloat ''+10'' = Fin 10"
  "parseFloat ''1e1'' = Fin 10"
  "parseFloat ''100e-1'' = Fin 10"
  "parseFloat ''10.'' = Fin 10"
  "parseFloat ''10e'' = Fin 10"
  "parseFloat ''.'' = NaN"
  "parseFloat ''-'' = NaN"
  "parseFloat ''- 5'' = NaN"
  "parseFloat ''e5'' = NaN"
  "parseFloat ''Infinity'' = PosInf"
  "parseFloat ''-Infinityx'' = NegInf"
  "parseFloat ''infinity'' = NaN"
  using round_to_double_int [of 5]
  by (simp_all add: parseFloat_unfold round_10 round_5_5)

section \<open>Numbers: addition, tests, sums\<close>

lemma js_or_zero_case:
  "js_or_zero n =
     (case n of NaN \<Rightarrow> Fin 0 | Fin a \<Rightarrow> Fin a | PosInf \<Rightarrow> PosInf | NegInf \<Rightarrow> NegInf)"
  by (cases n) simp_all

lemma js_gt_zero_not_le: "js_gt_zero n \<Longrightarrow> \<not> js_le_zero n"
  by (cases n) simp_all

lemma foldl_add_from:
  "foldl (\<lambda>sum x. js_add sum (f x)) acc xs = add_from acc (map f xs)"
  by (induction xs arbitrary: acc) simp_all

text \<open>Whole numbers whose magnitudes add up to less than \<open>2 ^ 53\<close> are summed exactly.\<close>

lemma add_from_ints:
  "\<bar>acc\<bar> + sum_list (map abs ns) < 2 ^ 53 \<Longrightarrow>
   add_from (Fin (of_int acc)) (map (\<lambda>n. Fin (of_int n)) ns) = Fin (of_int (acc + sum_list ns))"
proof (induction ns arbitrary: acc)
  case Nil
  then show ?case by simp
next
  case (Cons n ns)
  have nonneg: "0 \<le> sum_list (map abs ns)"
    by (induction ns) simp_all
  have triangle: "\<bar>acc + n\<bar> \<le> \<bar>acc\<bar> + \<bar>n\<bar>"
    by (rule abs_triangle_ineq)
  from Cons.prems have total: "\<bar>acc\<bar> + \<bar>n\<bar> + sum_list (map abs ns) < 2 ^ 53"
    by simp
  from triangle total nonneg have small: "\<bar>acc + n\<bar> < 2 ^ 53"
    by linarith
  from triangle total have rest: "\<bar>acc + n\<bar> + sum_list (map abs ns) < 2 ^ 53"
    by linarith
  have "js_add (Fin (of_int acc)) (Fin (of_int n)) = round_to_double (of_int (acc + n))"
    by simp
  also have "\<dots> = Fin (of_int (acc + n))"
    using small by (rule round_to_double_int)
  finally have step: "js_add (Fin (of_int acc)) (Fin (of_int n)) = Fin (of_int (acc + n))" .
  have "add_from (Fin (of_int acc)) (map (\<lambda>n. Fin (of_int n)) (n # ns)) =
      add_from (js_add (Fin (of_int acc)) (Fin (of_int n))) (map (\<lambda>n. Fin (of_int n)) ns)"
    by simp
  also have "\<dots> = add_from (Fin (of_int (acc + n))) (map (\<lambda>n. Fin (of_int n)) ns)"
    by (simp only: step)
  also have "\<dots> = Fin (of_int (acc + n + sum_list ns))"
    using rest by (rule Cons.IH)
  also have "acc + n + sum_list ns = acc + sum_list (n # ns)"
    by simp
  finally show ?case .
qed

section \<open>Session Store: events, sign-out, construction\<close>

lemma deliver_all_snoc:
  "deliver_all st (ps @ [p]) = onAuthStateChange p (deliver_all st ps)"
  by (simp add: deliver_all_def)

text \<open>
  C4. After any non-empty sequence of auth-state-change events has been delivered to the
  listener, from any earlier state of the store, the exposed Session is the payload of
  the last event, and the exposed User was written by the same call of the listener: it
  is that session's user, or absent when the payload is null.
\<close>

theorem session_is_last_payload:
  "payloads \<noteq> [] \<Longrightarrow>
     session (deliver_all st payloads) = last payloads \<and>
     user (deliver_all st payloads) =
       (case last payloads of None \<Rightarrow> None | Some s \<Rightarrow> Some (session_user s))"
proof -
  assume "payloads \<noteq> []"
  then obtain ps p where split: "payloads = ps @ [p]"
    by (metis append_butlast_last_id)
  show ?thesis
    unfolding split deliver_all_snoc
    by (simp add: onAuthStateChange_def set_session_and_user_def)
qed

text \<open>C4 at a sign-out event followed by a sign-in event.\<close>

theorem session_is_last_payload_witness:
  "[None, Some alice_session] \<noteq> [] \<and>
   session (deliver_all logged_out [None, Some alice_session]) = Some alice_session \<and>
   user (deliver_all logged_out [None, Some alice_session]) = Some alice"
proof -
  have ne: "[None, Some alice_session] \<noteq> []" by simp
  show ?thesis
    using session_is_last_payload [OF ne, of logged_out]
    by (simp add: alice_session_def)
qed

text \<open>
  C10. Calling signOut sends one sign-out call to the service and writes nothing locally:
  the store, its Session and its User are what they were, after one call and after any
  number of calls. The store is cleared by the listener, when an auth-state-change event
  with a null payload is delivered afterwards.
\<close>

theorem signOut_leaves_store:
  "fst (signOut st) = st \<and>
   session (fst (signOut st)) = session st \<and>
   user (fst (signOut st)) = user st \<and>
   snd (signOut st) = [AuthSignOut] \<and>
   store_run st (replicate n SignOutCalled) = st \<and>
   session (onAuthStateChange None (fst (signOut st))) = None \<and>
   user (onAuthStateChange None (fst (signOut st))) = None"
proof -
  have "store_run st (replicate n SignOutCalled) = st"
    unfolding store_run_def by (induction n) (simp_all add: signOut_def)
  then show ?thesis
    by (simp add: signOut_def onAuthStateChange_def set_session_and_user_def)
qed

lemma store_run_snoc: "store_run st (evs @ [e]) = store_step (store_run st evs) e"
  by (simp add: store_run_def)

lemma user_set_only_by_delivery:
  "user st = None \<Longrightarrow> user (store_run st evs) \<noteq> None \<Longrightarrow>
     \<exists>s. SessionFetched (Some s) \<in> set evs \<or> AuthStateChanged (Some s) \<in> set evs"
proof (induction evs rule: rev_induct)
  case Nil
  then show ?case by (simp add: store_run_def)
next
  case (snoc e evs)
  show ?case
  proof (cases e)
    case (SessionFetched p)
    with snoc.prems(2) obtain s where "p = Some s"
      by (cases p)
        (auto simp: store_run_snoc getSession_resolved_def set_session_and_user_def)
    with SessionFetched show ?thesis by auto
  next
    case (AuthStateChanged p)
    with snoc.prems(2) obtain s where "p = Some s"
      by (cases p)
        (auto simp: store_run_snoc onAuthStateChange_def set_session_and_user_def)
    with AuthStateChanged show ?thesis by auto
  next
    case SignOutCalled
    with snoc.prems(2) have "user (store_run st evs) \<noteq> None"
      by (simp add: store_run_snoc signOut_def)
    from snoc.IH [OF snoc.prems(1) this] show ?thesis by auto
  qed
qed

lemma AuthProvider_init_user: "AuthProvider_init jp ls = Inr ctx \<Longrightarrow> user ctx = None"
  by (auto simp: AuthProvider_init_def split: sum.splits)

text \<open>
  C5. Whatever local storage holds, the store is constructed with an absent User, and in
  any run of the store a User that is present was written by a resolved session fetch or
  by an auth-state-change event that carried a session. When local storage holds a
  snapshot that parses to a session, the store starts with that Session and no User; in
  that state the Route Guard renders the protected view, and the Entry Form's submission
  sends nothing and sets the error "You must be logged in to add investments".
\<close>

theorem user_absent_until_session_delivered:
  "(AuthProvider_init json_parse window_storage = Inr ctx \<longrightarrow>
      user ctx = None \<and>
      (user (store_run ctx events) \<noteq> None \<longrightarrow>
         (\<exists>s. SessionFetched (Some s) \<in> set events \<or>
              AuthStateChanged (Some s) \<in> set events))) \<and>
   (window_storage = Some localStorage \<and> localStorage ''session'' = Some stored \<and>
    stored \<noteq> [] \<and> json_parse stored = Some (Some restored) \<longrightarrow>
      AuthProvider_init json_parse window_storage
        = Inr \<lparr>session = Some restored, user = None\<rparr> \<and>
      PrivateRoute \<lparr>session = Some restored, user = None\<rparr> = Children \<and>
      handleSubmit parse (user \<lparr>session = Some restored, user = None\<rparr>) respond st =
        \<lparr>state_after = st\<lparr>form_error := Some ''You must be logged in to add investments''\<rparr>,
         issued = [], navigated = None\<rparr>)"
proof -
  have "AuthProvider_init json_parse window_storage = Inr ctx \<longrightarrow>
      user ctx = None \<and>
      (user (store_run ctx events) \<noteq> None \<longrightarrow>
         (\<exists>s. SessionFetched (Some s) \<in> set events \<or>
              AuthStateChanged (Some s) \<in> set events))"
    using AuthProvider_init_user user_set_only_by_delivery by blast
  moreover have "window_storage = Some localStorage \<and>
    localStorage ''session'' = Some stored \<and>
    stored \<noteq> [] \<and> json_parse stored = Some (Some restored) \<longrightarrow>
      AuthProvider_init json_parse window_storage
        = Inr \<lparr>session = Some restored, user = None\<rparr>"
    by (simp add: AuthProvider_init_def usePersistentState_init_def)
  moreover have "PrivateRoute \<lparr>session = Some restored, user = None\<rparr> = Children"
    by (simp add: PrivateRoute_def)
  moreover have
    "handleSubmit parse (user \<lparr>session = Some restored, user = None\<rparr>) respond st =
        \<lparr>state_after = st\<lparr>form_error := Some ''You must be logged in to add investments''\<rparr>,
         issued = [], navigated = None\<rparr>"
    by (simp add: handleSubmit_def)
  ultimately show ?thesis by blast
qed

text \<open>C5 at a storage that holds a snapshot, and at a run in which the fetch resolves.\<close>

theorem user_absent_until_session_delivered_witness:
  "AuthProvider_init parse_snapshot storage_with_snapshot
     = Inr \<lparr>session = Some alice_session, user = None\<rparr> \<and>
   user (store_run \<lparr>session = Some alice_session, user = None\<rparr>
          [SignOutCalled, SessionFetched (Some alice_session)]) \<noteq> None \<and>
   SessionFetched (Some alice_session)
     \<in> set [SignOutCalled, SessionFetched (Some alice_session)] \<and>
   storage_with_snapshot = Some [''session'' \<mapsto> stored_snapshot] \<and>
   [''session'' \<mapsto> stored_snapshot] ''session'' = Some stored_snapshot \<and>
   stored_snapshot \<noteq> [] \<and>
   parse_snapshot stored_snapshot = Some (Some alice_session) \<and>
   PrivateRoute \<lparr>session = Some alice_session, user = None\<rparr> = Children \<and>
   issued (handleSubmit parseFloat (user \<lparr>session = Some alice_session, user = None\<rparr>)
      all_inserts_succeed empty_form) = [] \<and>
   form_error (state_after (handleSubmit parseFloat (user \<lparr>session = Some alice_session, user = None\<rparr>)
      all_inserts_succeed empty_form)) = Some ''You must be logged in to add investments''"
proof -
  have pre: "storage_with_snapshot = Some [''session'' \<mapsto> stored_snapshot] \<and>
      [''session'' \<mapsto> stored_snapshot] ''session'' = Some stored_snapshot \<and>
      stored_snapshot \<noteq> [] \<and> parse_snapshot stored_snapshot = Some (Some alice_session)"
    by (simp add: storage_with_snapshot_def stored_snapshot_def parse_snapshot_def)
  have run: "user (store_run \<lparr>session = Some alice_session, user = None\<rparr>
          [SignOutCalled, SessionFetched (Some alice_session)]) \<noteq> None"
    by (simp add: store_run_def signOut_def getSession_resolved_def set_session_and_user_def)
  show ?thesis
    using pre run
      user_absent_until_session_delivered [of parse_snapshot storage_with_snapshot
        "\<lparr>session = Some alice_session, user = None\<rparr>"
        "[SignOutCalled, SessionFetched (Some alice_session)]"
        "[''session'' \<mapsto> stored_snapshot]"
        stored_snapshot alice_session parseFloat all_inserts_succeed empty_form]
    by simp
qed

section \<open>List View: totals row and delete\<close>

lemma js_index_last:
  "invs \<noteq> [] \<Longrightarrow> js_index invs (int (length invs) - 1) = Some (last invs)"
proof -
  assume ne: "invs \<noteq> []"
  then have "nat (int (length invs) - 1) = length invs - 1"
    by simp
  with ne show ?thesis
    by (simp add: js_index_def last_conv_nth)
qed

lemma js_index_first: "invs \<noteq> [] \<Longrightarrow> js_index invs 0 = Some (hd invs)"
  by (simp add: js_index_def hd_conv_nth)

lemma two_investments_total:
  "map_option total_amount (Dashboard_totals two_investments) = Some (Fin 350)"
  by (simp add: Dashboard_totals_def two_investments_def round_100 round_350)

text \<open>
  C6, as the claim states it, fails. For a list loaded newest first, with the dates
  2025-03-02 and 2025-01-15, the range cell reads "2025-01-15 - 2025-03-02": the date of
  the last entry comes first, so the range is not the first entry's date followed by the
  last entry's date.
\<close>

theorem totals_range_not_newest_first:
  "map_option date_range (Dashboard_totals two_investments)
     = Some ''2025-01-15 - 2025-03-02'' \<and>
   inv_investment_date (hd two_investments) = ''2025-03-02'' \<and>
   inv_investment_date (last two_investments) = ''2025-01-15'' \<and>
   map_option date_range (Dashboard_totals two_investments) \<noteq>
     Some (inv_investment_date (hd two_investments) @ '' - '' @
           inv_investment_date (last two_investments))"
  by (simp add: Dashboard_totals_def two_investments_def js_index_def date_text_def)

text \<open>
  C6, amended. The totals row is rendered exactly when the loaded list is not empty. Its
  amount is the sum of the amounts of all loaded investments, added as doubles in the
  order of the list from 0; when the amounts are whole numbers whose magnitudes add up to
  less than \<open>2 ^ 53\<close> that is their exact sum (350 for the amounts 100 and 250). Its date
  range is the date of the last entry of the loaded list, then " - ", then the date of
  the first entry: oldest to newest for a list loaded newest first.
\<close>

theorem totals_row_shape:
  "Dashboard_totals invs =
     (if invs = [] then None
      else Some \<lparr>date_range =
                   inv_investment_date (last invs) @ '' - '' @ inv_investment_date (hd invs),
                 total_amount = sum_in_order (map inv_amount invs)\<rparr>) \<and>
   (invs \<noteq> [] \<and> map inv_amount invs = map (\<lambda>n. Fin (of_int n)) ns \<and>
    sum_list (map abs ns) < 2 ^ 53 \<longrightarrow>
      map_option total_amount (Dashboard_totals invs) = Some (Fin (of_int (sum_list ns)))) \<and>
   map_option total_amount (Dashboard_totals two_investments) = Some (Fin 350)"
proof -
  have shape: "Dashboard_totals invs =
     (if invs = [] then None
      else Some \<lparr>date_range =
                   inv_investment_date (last invs) @ '' - '' @ inv_investment_date (hd invs),
                 total_amount = sum_in_order (map inv_amount invs)\<rparr>)"
    by (simp add: Dashboard_totals_def js_index_last js_index_first date_text_def
        foldl_add_from sum_in_order_def)
  have exact: "map_option total_amount (Dashboard_totals invs) = Some (Fin (of_int (sum_list ns)))"
    if "invs \<noteq> []" and amounts: "map inv_amount invs = map (\<lambda>n. Fin (of_int n)) ns"
      and small: "sum_list (map abs ns) < 2 ^ 53"
  proof -
    from small have "\<bar>0\<bar> + sum_list (map abs ns) < 2 ^ 53" by simp
    from add_from_ints [OF this] have "sum_in_order (map inv_amount invs) = Fin (of_int (sum_list ns))"
      by (simp add: sum_in_order_def amounts)
    with that(1) show ?thesis by (simp add: shape)
  qed
  from shape exact two_investments_total show ?thesis by blast
qed

text \<open>C6, amended, at the amounts 100 and 250.\<close>

theorem totals_row_shape_witness:
  "two_investments \<noteq> [] \<and>
   map inv_amount two_investments = map (\<lambda>n. Fin (of_int n)) [100, 250] \<and>
   sum_list (map abs [100, 250 :: int]) < 2 ^ 53 \<and>
   map_option total_amount (Dashboard_totals two_investments) = Some (Fin 350) \<and>
   map_option date_range (Dashboard_totals two_investments) = Some ''2025-01-15 - 2025-03-02''"
proof -
  have pre: "two_investments \<noteq> [] \<and>
      map inv_amount two_investments = map (\<lambda>n. Fin (of_int n)) [100, 250] \<and>
      sum_list (map abs [100, 250 :: int]) < 2 ^ 53"
    by (simp add: two_investments_def)
  have ends: "inv_investment_date (last two_investments) = ''2025-01-15'' \<and>
      inv_investment_date (hd two_investments) = ''2025-03-02''"
    by (simp add: two_investments_def)
  note shape = totals_row_shape [of two_investments "[100, 250]"]
  from shape pre have
    "map_option total_amount (Dashboard_totals two_investments)
       = Some (Fin (of_int (sum_list [100, 250])))"
    by blast
  then have total:
    "map_option total_amount (Dashboard_totals two_investments) = Some (Fin 350)"
    by simp
  from shape have
    "Dashboard_totals two_investments =
       (if two_investments = [] then None
        else Some \<lparr>date_range =
                     inv_investment_date (last two_investments) @ '' - '' @
                     inv_investment_date (hd two_investments),
                   total_amount = sum_in_order (map inv_amount two_investments)\<rparr>)"
    by (rule conjunct1)
  with pre ends have range:
    "map_option date_range (Dashboard_totals two_investments) = Some ''2025-01-15 - 2025-03-02''"
    by simp
  from pre total range show ?thesis by simp
qed





section \<open>Entry Form: the derived total\<close>

text \<open>
  C9. The derived total of the Entry Form is the sum of the drafts' parsed amounts, added
  as doubles in the order of the drafts from 0, in which an amount that parses to NaN
  counts as zero, whatever the built-in returns. With the built-in as ECMAScript defines
  it, the empty string parses to NaN; for drafts with the amounts "10", "abc" and "5.5"
  the total is 15.5; and for the amounts "0.1" and "0.2" it is the double
  0.30000000000000004.
\<close>

theorem totalAmount_is_sum:
  "totalAmount parse allocs =
     sum_in_order
       (map (\<lambda>a. case parse (amount a) of
                   NaN \<Rightarrow> Fin 0 | Fin r \<Rightarrow> Fin r | PosInf \<Rightarrow> PosInf | NegInf \<Rightarrow> NegInf)
          allocs)
   \<and> parseFloat [] = NaN
   \<and> totalAmount parseFloat [draft [] ''10'', draft [] ''abc'', draft [] ''5.5''] = Fin (31 / 2)
   \<and> totalAmount parseFloat [draft [] ''0.1'', draft [] ''0.2'']
       = Fin double_0_30000000000000004"
proof -
  have "totalAmount parse allocs =
          sum_in_order (map (\<lambda>a. js_or_zero (parse (amount a))) allocs)"
    unfolding totalAmount_def sum_in_order_def by (rule foldl_add_from)
  moreover have
    "totalAmount parseFloat [draft [] ''10'', draft [] ''abc'', draft [] ''5.5''] = Fin (31 / 2)"
    by (simp add: totalAmount_def draft_def parseFloat_10 parseFloat_abc parseFloat_5_5
        round_10 round_15_5)
  moreover have "double_0_1 \<noteq> 0" and "double_0_2 \<noteq> 0"
    by (simp_all add: double_0_1_def double_0_2_def)
  then have "totalAmount parseFloat [draft [] ''0.1'', draft [] ''0.2'']
       = Fin double_0_30000000000000004"
    by (simp add: totalAmount_def draft_def parseFloat_0_1 parseFloat_0_2
        round_double_0_1 add_0_1_0_2)
  ultimately show ?thesis
    by (simp add: js_or_zero_case parseFloat_empty)
qed

section \<open>Entry Form: the allocation sequence\<close>

lemma filter_index_enumerate:
  "map snd (filter (\<lambda>(i, _). i \<noteq> k + index) (enumerate k xs))
     = take index xs @ drop (Suc index) xs"
proof (induction xs arbitrary: k index)
  case Nil
  show ?case by simp
next
  case (Cons x xs)
  show ?case
  proof (cases index)
    case 0
    have "filter (\<lambda>(i, _). i \<noteq> k) (enumerate (Suc k) xs) = enumerate (Suc k) xs"
      by (rule filter_True) (auto simp: in_set_enumerate_eq)
    with 0 show ?thesis by simp
  next
    case (Suc m)
    with Cons.IH [of "Suc k" m] show ?thesis by simp
  qed
qed

lemma handleRemoveAllocation_eq:
  "handleRemoveAllocation index allocs =
     (if length allocs = 1 then [fresh_allocation]
      else take index allocs @ drop (Suc index) allocs)"
  using filter_index_enumerate [of 0 index allocs]
  by (simp add: handleRemoveAllocation_def)

lemma handleRemoveAllocation_nonempty:
  "allocs \<noteq> [] \<Longrightarrow> handleRemoveAllocation index allocs \<noteq> []"
proof -
  assume ne: "allocs \<noteq> []"
  show ?thesis
  proof (cases "length allocs = 1")
    case True
    then show ?thesis by (simp add: handleRemoveAllocation_eq)
  next
    case False
    with ne have "2 \<le> length allocs"
      by (cases allocs) (auto simp: Suc_le_eq)
    then have "length (take index allocs @ drop (Suc index) allocs) \<noteq> 0"
      by (cases "index < length allocs") auto
    then have "take index allocs @ drop (Suc index) allocs \<noteq> []"
      unfolding length_0_conv .
    moreover from False have
      "handleRemoveAllocation index allocs = take index allocs @ drop (Suc index) allocs"
      by (simp add: handleRemoveAllocation_eq)
    ultimately show ?thesis by simp
  qed
qed

lemma form_step_nonempty:
  "allocs \<noteq> [] \<Longrightarrow> form_step allocs e = Some allocs' \<Longrightarrow> allocs' \<noteq> []"
  by (cases e)
    (auto simp: handleAddAllocation_def handleAllocationChange_def
       handleRemoveAllocation_nonempty split: if_splits)

lemma form_run_nonempty:
  "allocs \<noteq> [] \<Longrightarrow> form_run allocs es = Some allocs' \<Longrightarrow> allocs' \<noteq> []"
proof (induction es arbitrary: allocs)
  case Nil
  then show ?case by simp
next
  case (Cons e es)
  from Cons.prems(2) obtain mid where
    step: "form_step allocs e = Some mid" and rest: "form_run mid es = Some allocs'"
    by (auto split: option.splits)
  from form_step_nonempty [OF Cons.prems(1) step] have "mid \<noteq> []" .
  from Cons.IH [OF this rest] show ?case .
qed

text \<open>
  C8. The allocation sequence of the Entry Form is never empty while the form is open. It
  starts as one empty draft; adding appends one empty draft; removing from a sequence of
  length 1 gives one fresh empty draft, for any position given; removing from a longer
  sequence drops the draft at the position; and after any sequence of add, remove and
  field-edit events from the initial state the sequence is not empty.
\<close>

theorem allocations_never_empty:
  "initial_allocations = [\<lparr>category = [], amount = [], alloc_notes = Some []\<rparr>] \<and>
   handleAddAllocation allocs
     = allocs @ [\<lparr>category = [], amount = [], alloc_notes = None\<rparr>] \<and>
   (length allocs = 1 \<longrightarrow>
      handleRemoveAllocation index allocs
        = [\<lparr>category = [], amount = [], alloc_notes = None\<rparr>]) \<and>
   (1 < length allocs \<longrightarrow>
      handleRemoveAllocation index allocs = take index allocs @ drop (Suc index) allocs) \<and>
   (form_run initial_allocations events = Some allocs' \<longrightarrow> allocs' \<noteq> [])"
proof -
  have "initial_allocations \<noteq> []"
    by (simp add: initial_allocations_def)
  then have "form_run initial_allocations events = Some allocs' \<longrightarrow> allocs' \<noteq> []"
    using form_run_nonempty by blast
  then show ?thesis
    by (simp add: initial_allocations_def handleAddAllocation_def fresh_allocation_def
        handleRemoveAllocation_eq)
qed

lemmas form_unfold =
  handleAddAllocation_def handleRemoveAllocation_def handleAllocationChange_def
  set_field_def fresh_allocation_def initial_allocations_def enumerate_eq_zip

text \<open>C8 at a removal from one draft, a removal from two, and a run that removes twice.\<close>

theorem allocations_never_empty_witness:
  "length [draft ''Stocks'' ''10''] = 1 \<and>
   handleRemoveAllocation 0 [draft ''Stocks'' ''10''] = [draft [] []] \<and>
   1 < length [draft ''Stocks'' ''10'', draft ''Bonds'' ''5''] \<and>
   handleRemoveAllocation 0 [draft ''Stocks'' ''10'', draft ''Bonds'' ''5'']
     = [draft ''Bonds'' ''5''] \<and>
   form_run initial_allocations [AddAllocation, RemoveAllocation 1, RemoveAllocation 0]
     = Some [draft [] []] \<and>
   [draft [] []] \<noteq> []"
proof -
  have run:
    "form_run initial_allocations [AddAllocation, RemoveAllocation 1, RemoveAllocation 0]
       = Some [draft [] []]"
    by (simp add: form_unfold draft_def)
  show ?thesis
    using run
      allocations_never_empty [of "[draft ''Stocks'' ''10'']" 0
        "[AddAllocation, RemoveAllocation 1, RemoveAllocation 0]" "[draft [] []]"]
      allocations_never_empty [of "[draft ''Stocks'' ''10'', draft ''Bonds'' ''5'']" 0 "[]" "[]"]
    by (simp add: draft_def)
qed

section \<open>Entry Form: submission\<close>

lemma no_failure_iff:
  "filter (\<lambda>r. r \<noteq> None) (map f [0..<n]) = [] \<longleftrightarrow> (\<forall>i<n. f i = None)"
  by (auto simp: filter_empty_conv)

lemma first_failure:
  assumes "i < n" and "f i = Some e" and "\<forall>j<i. f j = None"
  shows "\<exists>rest. filter (\<lambda>r. r \<noteq> None) (map f [0..<n]) = Some e # rest"
proof -
  from assms(1) have "[0..<n] = [0..<i] @ i # [Suc i..<n]"
    by (metis less_imp_le_nat upt_add_eq_append upt_conv_Cons le0 le_add_diff_inverse
        plus_nat.add_0)
  moreover from assms(3) have "filter (\<lambda>r. r \<noteq> None) (map f [0..<i]) = []"
    by (auto simp: filter_empty_conv)
  ultimately show ?thesis using assms(2) by simp
qed

lemma handleSubmit_valid:
  assumes "\<not> invalidAllocations parse (allocations st)"
  shows "handleSubmit parse (Some u) respond st =
    (case filter (\<lambda>result. result \<noteq> None)
            (map (\<lambda>i. respond i
                        (map (investment_of parse u (investmentDate st)) (allocations st) ! i))
               [0..<length (allocations st)]) of
       [] \<Rightarrow>
         \<lparr>state_after = st\<lparr>loading := False, form_error := None\<rparr>,
          issued = map InsertInvestment
                     (map (investment_of parse u (investmentDate st)) (allocations st)),
          navigated = Some ''/dashboard''\<rparr>
     | first # _ \<Rightarrow>
         \<lparr>state_after =
            st\<lparr>loading := False,
               form_error :=
                 Some (message_or ''Failed to add investments. Please try again.'' first)\<rparr>,
          issued = map InsertInvestment
                     (map (investment_of parse u (investmentDate st)) (allocations st)),
          navigated = None\<rparr>)"
  using assms by (simp add: handleSubmit_def Let_def)

lemma handleSubmit_issued:
  "\<not> invalidAllocations parse (allocations st) \<Longrightarrow>
   issued (handleSubmit parse (Some u) respond st) =
     map InsertInvestment (map (investment_of parse u (investmentDate st)) (allocations st))"
  by (simp add: handleSubmit_valid split: list.splits)

lemma list_all_valid:
  "list_all (\<lambda>a. category a \<noteq> [] \<and> amount a \<noteq> [] \<and> js_gt_zero (parse (amount a))) allocs
     \<Longrightarrow> \<not> invalidAllocations parse allocs"
  by (auto simp: invalidAllocations_def list_all_iff list_ex_iff dest: js_gt_zero_not_le)

lemma two_drafts_valid: "\<not> invalidAllocations parseFloat (allocations two_drafts_form)"
  by (simp add: invalidAllocations_def two_drafts_form_def draft_def parseFloat_10 parseFloat_5_5)

lemma two_drafts_rows:
  "map (investment_of parseFloat alice (investmentDate two_drafts_form))
      (allocations two_drafts_form)
     = [stocks_row, bonds_row]"
  by (simp add: two_drafts_form_def draft_def investment_of_def alice_def stocks_row_def
      bonds_row_def parseFloat_10 parseFloat_5_5)

lemma two_drafts_length: "length (allocations two_drafts_form) = Suc (Suc 0)"
  by (simp add: two_drafts_form_def)

lemma handleSubmit_two_drafts:
  "handleSubmit parseFloat (Some alice) respond two_drafts_form =
     (case filter (\<lambda>result. result \<noteq> None) [respond 0 stocks_row, respond 1 bonds_row] of
        [] \<Rightarrow>
          \<lparr>state_after = two_drafts_form\<lparr>loading := False, form_error := None\<rparr>,
           issued = [InsertInvestment stocks_row, InsertInvestment bonds_row],
           navigated = Some ''/dashboard''\<rparr>
      | first # _ \<Rightarrow>
          \<lparr>state_after =
             two_drafts_form\<lparr>loading := False,
               form_error :=
                 Some (message_or ''Failed to add investments. Please try again.'' first)\<rparr>,
           issued = [InsertInvestment stocks_row, InsertInvestment bonds_row],
           navigated = None\<rparr>)"
  by (simp add: handleSubmit_valid [OF two_drafts_valid] two_drafts_rows two_drafts_length)

text \<open>
  C1, as the claim states it, fails. Two valid drafts are submitted for a current user;
  the first insert succeeds and the second is answered with an error object that carries
  the message "duplicate key value" and is no instance of \<^verbatim>\<open>Error\<close>. Both inserts were
  sent, and the error of the form is the fixed text "Failed to add investments. Please
  try again.", not the message of the failure.
\<close>

theorem first_failure_message_not_shown:
  "\<not> invalidAllocations parseFloat (allocations two_drafts_form) \<and>
   second_insert_fails 0 stocks_row = None \<and>
   second_insert_fails 1 bonds_row = Some (PlainObject ''duplicate key value'') \<and>
   issued (handleSubmit parseFloat (Some alice) second_insert_fails two_drafts_form)
     = [InsertInvestment stocks_row, InsertInvestment bonds_row] \<and>
   form_error
     (state_after (handleSubmit parseFloat (Some alice) second_insert_fails two_drafts_form))
     = Some ''Failed to add investments. Please try again.'' \<and>
   form_error
     (state_after (handleSubmit parseFloat (Some alice) second_insert_fails two_drafts_form))
     \<noteq> Some (error_message (PlainObject ''duplicate key value''))"
  by (simp add: handleSubmit_two_drafts two_drafts_valid second_insert_fails_def)

text \<open>
  C1, amended. In a batch submission that passed the validation of the code, when one or
  more inserts fail, the error of the form is taken from the first failure in the order
  of the drafts: its message when the failure is an instance of \<^verbatim>\<open>Error\<close>, and otherwise
  the fixed text "Failed to add investments. Please try again."; the drafts stay, the
  form does not navigate, and the calls sent are the inserts, one per draft, with no call
  that undoes a successful one. The form navigates to the List View exactly when every
  insert succeeds, and then no error is set. This holds whatever the built-in
  \<^verbatim>\<open>parseFloat\<close> returns.
\<close>

theorem submit_partial_failure:
  assumes "\<not> invalidAllocations parse (allocations st)"
    and "rows = map (investment_of parse u (investmentDate st)) (allocations st)"
    and "out = handleSubmit parse (Some u) respond st"
  shows
    "(i < length rows \<and> respond i (rows ! i) = Some e \<and>
      (\<forall>j<i. respond j (rows ! j) = None) \<longrightarrow>
        form_error (state_after out) =
          Some (case e of ErrorInstance m \<Rightarrow> m
                | PlainObject m \<Rightarrow> ''Failed to add investments. Please try again.'') \<and>
        allocations (state_after out) = allocations st \<and>
        loading (state_after out) = False \<and>
        navigated out = None \<and>
        issued out = map InsertInvestment rows) \<and>
     (navigated out = Some ''/dashboard'' \<longleftrightarrow>
        (\<forall>k<length rows. respond k (rows ! k) = None)) \<and>
     ((\<forall>k<length rows. respond k (rows ! k) = None) \<longrightarrow>
        form_error (state_after out) = None \<and> issued out = map InsertInvestment rows)"
proof -
  let ?results = "filter (\<lambda>result. result \<noteq> None)
                    (map (\<lambda>i. respond i (rows ! i)) [0..<length rows])"
  have out_eq: "out =
    (case ?results of
       [] \<Rightarrow>
         \<lparr>state_after = st\<lparr>loading := False, form_error := None\<rparr>,
          issued = map InsertInvestment rows, navigated = Some ''/dashboard''\<rparr>
     | first # _ \<Rightarrow>
         \<lparr>state_after =
            st\<lparr>loading := False,
               form_error :=
                 Some (message_or ''Failed to add investments. Please try again.'' first)\<rparr>,
          issued = map InsertInvestment rows, navigated = None\<rparr>)"
    unfolding assms(2,3) using handleSubmit_valid [OF assms(1), of u respond] by simp
  have none_iff: "?results = [] \<longleftrightarrow> (\<forall>k<length rows. respond k (rows ! k) = None)"
    by (rule no_failure_iff)
  have failing: "form_error (state_after out) =
          Some (case e of ErrorInstance m \<Rightarrow> m
                | PlainObject m \<Rightarrow> ''Failed to add investments. Please try again.'') \<and>
        allocations (state_after out) = allocations st \<and>
        loading (state_after out) = False \<and>
        navigated out = None \<and>
        issued out = map InsertInvestment rows"
    if "i < length rows" "respond i (rows ! i) = Some e" "\<forall>j<i. respond j (rows ! j) = None"
  proof -
    from first_failure [of i "length rows" "\<lambda>i. respond i (rows ! i)" e] that
    obtain rest where "?results = Some e # rest" by auto
    then show ?thesis
      unfolding out_eq by (cases e) simp_all
  qed
  have nav: "navigated out = Some ''/dashboard'' \<longleftrightarrow> ?results = []"
    unfolding out_eq by (simp split: list.splits)
  have ok: "form_error (state_after out) = None \<and> issued out = map InsertInvestment rows"
    if "?results = []"
    unfolding out_eq using that by simp
  from failing nav ok none_iff show ?thesis by blast
qed

text \<open>
  C1, amended, at two valid drafts: once with a second insert that fails with an
  \<^verbatim>\<open>Error\<close>, once with a service that accepts both.
\<close>

theorem submit_partial_failure_witness:
  "\<not> invalidAllocations parseFloat (allocations two_drafts_form) \<and>
   second_insert_throws 0 stocks_row = None \<and>
   second_insert_throws 1 bonds_row = Some (ErrorInstance ''Failed to fetch'') \<and>
   form_error
     (state_after (handleSubmit parseFloat (Some alice) second_insert_throws two_drafts_form))
     = Some ''Failed to fetch'' \<and>
   navigated (handleSubmit parseFloat (Some alice) second_insert_throws two_drafts_form)
     = None \<and>
   issued (handleSubmit parseFloat (Some alice) second_insert_throws two_drafts_form)
     = [InsertInvestment stocks_row, InsertInvestment bonds_row] \<and>
   all_inserts_succeed 0 stocks_row = None \<and>
   all_inserts_succeed 1 bonds_row = None \<and>
   navigated (handleSubmit parseFloat (Some alice) all_inserts_succeed two_drafts_form)
     = Some ''/dashboard'' \<and>
   form_error
     (state_after (handleSubmit parseFloat (Some alice) all_inserts_succeed two_drafts_form))
     = None"
proof -
  have fails: "second_insert_throws 0 stocks_row = None \<and>
      second_insert_throws 1 bonds_row = Some (ErrorInstance ''Failed to fetch'')"
    by (simp add: second_insert_throws_def)
  have succeeds: "\<forall>k<2. all_inserts_succeed k ([stocks_row, bonds_row] ! k) = None"
    by (simp add: all_inserts_succeed_def)
  show ?thesis
    using fails succeeds two_drafts_valid
      submit_partial_failure [where respond = second_insert_throws and i = 1
        and e = "ErrorInstance ''Failed to fetch''",
        OF two_drafts_valid two_drafts_rows [symmetric] refl]
      submit_partial_failure [where respond = all_inserts_succeed and i = 0
        and e = "ErrorInstance []",
        OF two_drafts_valid two_drafts_rows [symmetric] refl]
    by (simp add: all_inserts_succeed_def)
qed

text \<open>
  C2. When a current user is present and every draft has a non-empty category, a
  non-empty amount string and a parsed amount above zero, submission sends exactly one
  insert per draft, in the order of the drafts; the insert for a draft carries the
  identifier of the current user, the parsed amount and the category of that draft, the
  one shared investment date, and the notes of that draft, or the empty string when the
  draft has no notes. The parsed amount is what the built-in \<^verbatim>\<open>parseFloat\<close> returns for
  the amount string, whatever that is.
\<close>

theorem submit_one_insert_per_draft:
  "list_all (\<lambda>a. category a \<noteq> [] \<and> amount a \<noteq> [] \<and> js_gt_zero (parse (amount a)))
     (allocations st) \<Longrightarrow>
   issued (handleSubmit parse (Some u) respond st) =
     map (\<lambda>a. InsertInvestment
                \<lparr>user_id = uid u,
                 row_amount = parse (amount a),
                 row_category = category a,
                 investment_date = investmentDate st,
                 row_notes = (case alloc_notes a of None \<Rightarrow> [] | Some n \<Rightarrow> n)\<rparr>)
       (allocations st) \<and>
   length (issued (handleSubmit parse (Some u) respond st)) = length (allocations st)"
proof -
  assume "list_all (\<lambda>a. category a \<noteq> [] \<and> amount a \<noteq> [] \<and> js_gt_zero (parse (amount a)))
     (allocations st)"
  then have "\<not> invalidAllocations parse (allocations st)"
    by (rule list_all_valid)
  then have "issued (handleSubmit parse (Some u) respond st) =
     map InsertInvestment (map (investment_of parse u (investmentDate st)) (allocations st))"
    by (rule handleSubmit_issued)
  then show ?thesis
    by (simp add: investment_of_def comp_def)
qed

text \<open>C2 at two valid drafts, the second with notes.\<close>

theorem submit_one_insert_per_draft_witness:
  "list_all (\<lambda>a. category a \<noteq> [] \<and> amount a \<noteq> [] \<and> js_gt_zero (parseFloat (amount a)))
     (allocations two_drafts_form) \<and>
   issued (handleSubmit parseFloat (Some alice) all_inserts_succeed two_drafts_form)
     = [InsertInvestment stocks_row, InsertInvestment bonds_row] \<and>
   length (issued (handleSubmit parseFloat (Some alice) all_inserts_succeed two_drafts_form))
     = 2"
proof -
  have ok: "list_all
      (\<lambda>a. category a \<noteq> [] \<and> amount a \<noteq> [] \<and> js_gt_zero (parseFloat (amount a)))
      (allocations two_drafts_form)"
    by (simp add: two_drafts_form_def draft_def parseFloat_10 parseFloat_5_5)
  have rows: "\<lparr>user_id = uid alice, row_amount = parseFloat ''10'', row_category = ''Stocks'',
       investment_date = ''2025-03-08'', row_notes = []\<rparr> = stocks_row \<and>
     \<lparr>user_id = uid alice, row_amount = parseFloat ''5.5'', row_category = ''Bonds'',
       investment_date = ''2025-03-08'', row_notes = ''ladder''\<rparr> = bonds_row"
    by (simp add: alice_def stocks_row_def bonds_row_def parseFloat_10 parseFloat_5_5)
  show ?thesis
    using ok rows submit_one_insert_per_draft [OF ok, of alice all_inserts_succeed]
    by (simp add: two_drafts_form_def draft_def)
qed

text \<open>
  C3. When the current user is absent, or some draft has an empty category, an empty
  amount string or a parsed amount at most zero, submission sends no call, does not
  navigate, and changes the form only by setting its error to one fixed message: the
  not-logged-in text when the user is absent, and otherwise the validation text, which
  does not depend on which draft is at fault. The parsed amount is what the built-in
  \<^verbatim>\<open>parseFloat\<close> returns for the amount string, whatever that is.
\<close>

theorem submit_rejected:
  "usr = None \<or>
   (\<exists>a\<in>set (allocations st).
      category a = [] \<or> amount a = [] \<or> js_le_zero (parse (amount a))) \<Longrightarrow>
   handleSubmit parse usr respond st =
     \<lparr>state_after =
        st\<lparr>form_error :=
             Some (if usr = None then ''You must be logged in to add investments''
                   else ''All categories must be selected and have a valid amount'')\<rparr>,
      issued = [], navigated = None\<rparr>"
  by (cases usr) (auto simp: handleSubmit_def invalidAllocations_def list_ex_iff)

text \<open>
  C3 without a user; with a user and a draft whose amount is "0"; and with a user and a
  draft whose amount "1e-400" rounds to the double 0.
\<close>

theorem submit_rejected_witness:
  "issued (handleSubmit parseFloat None all_inserts_succeed two_drafts_form) = [] \<and>
   form_error (state_after (handleSubmit parseFloat None all_inserts_succeed two_drafts_form))
     = Some ''You must be logged in to add investments'' \<and>
   draft ''Bonds'' ''0'' \<in> set (allocations zero_amount_form) \<and>
   js_le_zero (parseFloat (amount (draft ''Bonds'' ''0''))) \<and>
   issued (handleSubmit parseFloat (Some alice) all_inserts_succeed zero_amount_form) = [] \<and>
   navigated (handleSubmit parseFloat (Some alice) all_inserts_succeed zero_amount_form)
     = None \<and>
   form_error
     (state_after (handleSubmit parseFloat (Some alice) all_inserts_succeed zero_amount_form))
     = Some ''All categories must be selected and have a valid amount'' \<and>
   draft ''Stocks'' ''1e-400'' \<in> set (allocations underflow_form) \<and>
   js_le_zero (parseFloat (amount (draft ''Stocks'' ''1e-400''))) \<and>
   issued (handleSubmit parseFloat (Some alice) all_inserts_succeed underflow_form) = [] \<and>
   form_error
     (state_after (handleSubmit parseFloat (Some alice) all_inserts_succeed underflow_form))
     = Some ''All categories must be selected and have a valid amount''"
proof -
  have bad: "draft ''Bonds'' ''0'' \<in> set (allocations zero_amount_form) \<and>
      js_le_zero (parseFloat (amount (draft ''Bonds'' ''0'')))"
    by (simp add: zero_amount_form_def draft_def parseFloat_0)
  then have hyp: "Some alice = None \<or>
      (\<exists>a\<in>set (allocations zero_amount_form).
         category a = [] \<or> amount a = [] \<or> js_le_zero (parseFloat (amount a)))"
    by blast
  have tiny: "draft ''Stocks'' ''1e-400'' \<in> set (allocations underflow_form) \<and>
      js_le_zero (parseFloat (amount (draft ''Stocks'' ''1e-400'')))"
    by (simp add: underflow_form_def draft_def parseFloat_1e_400)
  then have hyp_tiny: "Some alice = None \<or>
      (\<exists>a\<in>set (allocations underflow_form).
         category a = [] \<or> amount a = [] \<or> js_le_zero (parseFloat (amount a)))"
    by blast
  have hyp0: "(None :: User option) = None \<or>
      (\<exists>a\<in>set (allocations two_drafts_form).
         category a = [] \<or> amount a = [] \<or> js_le_zero (parseFloat (amount a)))"
    by simp
  show ?thesis
    using bad tiny submit_rejected [OF hyp, of all_inserts_succeed]
      submit_rejected [OF hyp_tiny, of all_inserts_succeed]
      submit_rejected [OF hyp0, of all_inserts_succeed]
    by simp
qed

end
